theory Spec2Isabelle
  imports Complex_Main
begin

section \<open>Time\<close>

text \<open>
  Go's \<open>time.Time\<close> is modelled as an integer count of nanoseconds since the Unix epoch and
  \<open>time.Duration\<close> as an integer count of nanoseconds. Every function of the program that
  calls \<open>time.Now()\<close> takes the instant it reads as the argument \<open>now\<close>. The store's own
  clock (used for key expiry) is taken to be the same clock, read in milliseconds.
  Instants are unbounded here: the saturation of \<open>time.Time\<close> arithmetic at the ends of its
  range is not represented.
\<close>

type_synonym time = int
type_synonym duration = int

definition UnixMilli :: "time \<Rightarrow> int" where
  "UnixMilli t = t div 1000000"

text \<open>\<open>Duration.Milliseconds\<close> is Go's integer division, which truncates toward zero.\<close>

definition Milliseconds :: "duration \<Rightarrow> int" where
  "Milliseconds d = (if 0 \<le> d then d div 1000000 else - ((- d) div 1000000))"

definition Second :: duration where
  "Second = 1000000000"

text \<open>Go's \<open>int\<close> and \<open>int64\<close> arithmetic wraps around modulo \<open>2^64\<close>.\<close>

definition wrap64 :: "int \<Rightarrow> int" where
  "wrap64 x = (x + 9223372036854775808) mod 18446744073709551616 - 9223372036854775808"

section \<open>The shared store\<close>

text \<open>
  The store is the Redis server the program talks to. A key holds a string, a sorted set or
  a hash, and an optional expiry instant in milliseconds. A sorted set is a list of
  (member, score) pairs with distinct members; its order is never observed by the program.
  The members the program writes are the decimal text of a millisecond timestamp and are
  modelled by that integer.
\<close>

type_synonym zset = "(int \<times> int) list"

datatype rvalue = RString string | RZSet zset | RHash "string \<Rightarrow> string option"

type_synonym keyspace = "string \<Rightarrow> (rvalue \<times> int option) option"

datatype redis_error = RedisNil | ConnErr | WrongType | ScriptErr

datatype error = Redis redis_error | Wrapped string error | Plain string

datatype command = CmdEval string | CmdExec string | CmdGet string | CmdSet string
  | CmdDel string | CmdHMGet string

text \<open>
  \<open>faults\<close> is the schedule of communication failures: each round trip of the client
  consumes its head, and \<open>True\<close> makes that round trip fail before it reaches the server.
  \<open>trace\<close> records every round trip that was attempted.
\<close>

record store =
  keyspace :: keyspace
  faults :: "bool list"
  trace :: "command list"

definition roundTrip :: "command \<Rightarrow> store \<Rightarrow> bool \<times> store" where
  "roundTrip c s =
     (case faults s of
        [] \<Rightarrow> (True, s\<lparr>trace := trace s @ [c]\<rparr>)
      | f # fs \<Rightarrow> (\<not> f, s\<lparr>faults := fs, trace := trace s @ [c]\<rparr>))"

text \<open>A key whose expiry instant has passed is removed when it is next accessed.\<close>

definition expireIfNeeded :: "int \<Rightarrow> string \<Rightarrow> keyspace \<Rightarrow> keyspace" where
  "expireIfNeeded t k ks =
     (case ks k of
        Some (v, Some e) \<Rightarrow> if e < t then ks(k := None) else ks
      | _ \<Rightarrow> ks)"

fun zadd :: "int \<Rightarrow> int \<Rightarrow> zset \<Rightarrow> zset" where
  "zadd m sc [] = [(m, sc)]"
| "zadd m sc ((m', sc') # z) =
     (if m' = m then (m, sc) # z else (m', sc') # zadd m sc z)"

text \<open>\<open>ZREMRANGEBYSCORE key -inf mx\<close>: an emptied sorted set is deleted with its key.\<close>

definition ZREMRANGEBYSCORE ::
  "int \<Rightarrow> string \<Rightarrow> int \<Rightarrow> keyspace \<Rightarrow> redis_error + (int \<times> keyspace)" where
  "ZREMRANGEBYSCORE t k mx ks0 =
     (let ks = expireIfNeeded t k ks0 in
      case ks k of
        None \<Rightarrow> Inr (0, ks)
      | Some (RZSet z, e) \<Rightarrow>
          (let z' = filter (\<lambda>(m, sc). \<not> sc \<le> mx) z in
           Inr (int (length z) - int (length z'),
                if z' = [] then ks(k := None) else ks(k \<mapsto> (RZSet z', e))))
      | Some (_, _) \<Rightarrow> Inl WrongType)"

definition ZCARD :: "int \<Rightarrow> string \<Rightarrow> keyspace \<Rightarrow> redis_error + (int \<times> keyspace)" where
  "ZCARD t k ks0 =
     (let ks = expireIfNeeded t k ks0 in
      case ks k of
        None \<Rightarrow> Inr (0, ks)
      | Some (RZSet z, e) \<Rightarrow> Inr (int (length z), ks)
      | Some (_, _) \<Rightarrow> Inl WrongType)"

definition ZADD ::
  "int \<Rightarrow> string \<Rightarrow> int \<Rightarrow> int \<Rightarrow> keyspace \<Rightarrow> redis_error + keyspace" where
  "ZADD t k sc m ks0 =
     (let ks = expireIfNeeded t k ks0 in
      case ks k of
        None \<Rightarrow> Inr (ks(k \<mapsto> (RZSet [(m, sc)], None)))
      | Some (RZSet z, e) \<Rightarrow> Inr (ks(k \<mapsto> (RZSet (zadd m sc z), e)))
      | Some (_, _) \<Rightarrow> Inl WrongType)"

text \<open>\<open>EXPIRE key secs\<close>: a timeout that is not positive deletes the key.\<close>

definition EXPIRE :: "int \<Rightarrow> string \<Rightarrow> int \<Rightarrow> keyspace \<Rightarrow> keyspace" where
  "EXPIRE t k secs ks0 =
     (let ks = expireIfNeeded t k ks0 in
      case ks k of
        None \<Rightarrow> ks
      | Some (v, e) \<Rightarrow>
          if secs \<le> 0 then ks(k := None) else ks(k \<mapsto> (v, Some (t + secs * 1000))))"

definition DEL :: "string \<Rightarrow> keyspace \<Rightarrow> keyspace" where
  "DEL k ks = ks(k := None)"

text \<open>\<open>math.ceil(window_size_ms / 1000) + 1\<close> of the scripts.\<close>

definition ttl_seconds :: "int \<Rightarrow> int" where
  "ttl_seconds window_size_ms = - ((- window_size_ms) div 1000) + 1"

section \<open>Sliding window limiter\<close>

definition sw_keyPrefix :: string where
  "sw_keyPrefix = ''rate_limit:sliding:''"

text \<open>
  The Lua script of \<open>SlidingWindow.Allow\<close>, run by the server at its time \<open>t\<close>. Its
  arguments are the decimal text of integers and are read back as those integers. A command
  that raises ends the script with an error; what was written before stays.
\<close>

definition sw_script ::
  "int \<Rightarrow> string \<Rightarrow> int \<Rightarrow> int \<Rightarrow> int \<Rightarrow> int \<Rightarrow> keyspace \<Rightarrow> (redis_error + int) \<times> keyspace" where
  "sw_script t key current_time window_start limit window_size_ms ks =
     (case ZREMRANGEBYSCORE t key window_start ks of
        Inl e \<Rightarrow> (Inl e, ks)
      | Inr (removed, ks1) \<Rightarrow>
          (case ZCARD t key ks1 of
             Inl e \<Rightarrow> (Inl e, ks1)
           | Inr (count, ks2) \<Rightarrow>
               if count < limit then
                 (case ZADD t key current_time current_time ks2 of
                    Inl e \<Rightarrow> (Inl e, ks2)
                  | Inr ks3 \<Rightarrow> (Inr 1, EXPIRE t key (ttl_seconds window_size_ms) ks3))
               else (Inr 0, ks2)))"

definition SlidingWindow_Allow ::
  "store \<Rightarrow> time \<Rightarrow> string \<Rightarrow> int \<Rightarrow> duration \<Rightarrow> (error + bool) \<times> store" where
  "SlidingWindow_Allow s now userID limit windowSize =
     (let key = sw_keyPrefix @ userID;
          currentTime = UnixMilli now;
          windowStart = UnixMilli (now - windowSize)
      in case roundTrip (CmdEval key) s of
           (False, s1) \<Rightarrow> (Inl (Wrapped ''rate limit check failed'' (Redis ConnErr)), s1)
         | (True, s1) \<Rightarrow>
             (case sw_script (UnixMilli now) key currentTime windowStart limit
                     (Milliseconds windowSize) (keyspace s1) of
                (Inl e, ks) \<Rightarrow>
                  (Inl (Wrapped ''rate limit check failed'' (Redis e)), s1\<lparr>keyspace := ks\<rparr>)
              | (Inr result, ks) \<Rightarrow> (Inr (result = 1), s1\<lparr>keyspace := ks\<rparr>)))"

text \<open>
  \<open>GetRemaining\<close> sends \<open>ZREMRANGEBYSCORE\<close> and \<open>ZCARD\<close> in one pipeline; \<open>Exec\<close> reports
  the first command error. The subtraction is Go's \<open>int\<close> subtraction.
\<close>

definition SlidingWindow_GetRemaining ::
  "store \<Rightarrow> time \<Rightarrow> string \<Rightarrow> int \<Rightarrow> duration \<Rightarrow> (error + int) \<times> store" where
  "SlidingWindow_GetRemaining s now userID limit windowSize =
     (let key = sw_keyPrefix @ userID;
          windowStart = UnixMilli (now - windowSize)
      in case roundTrip (CmdExec key) s of
           (False, s1) \<Rightarrow>
             (Inl (Wrapped ''failed to get remaining requests'' (Redis ConnErr)), s1)
         | (True, s1) \<Rightarrow>
             (case ZREMRANGEBYSCORE (UnixMilli now) key windowStart (keyspace s1) of
                Inl e \<Rightarrow> (Inl (Wrapped ''failed to get remaining requests'' (Redis e)), s1)
              | Inr (removed, ks1) \<Rightarrow>
                  (case ZCARD (UnixMilli now) key ks1 of
                     Inl e \<Rightarrow>
                       (Inl (Wrapped ''failed to get remaining requests'' (Redis e)),
                        s1\<lparr>keyspace := ks1\<rparr>)
                   | Inr (count, ks2) \<Rightarrow>
                       (let remaining = wrap64 (limit - count)
                        in (Inr (if remaining < 0 then 0 else remaining),
                            s1\<lparr>keyspace := ks2\<rparr>)))))"

definition SlidingWindow_Reset :: "store \<Rightarrow> string \<Rightarrow> error option \<times> store" where
  "SlidingWindow_Reset s userID =
     (let key = sw_keyPrefix @ userID
      in case roundTrip (CmdDel key) s of
           (False, s1) \<Rightarrow> (Some (Redis ConnErr), s1)
         | (True, s1) \<Rightarrow> (None, s1\<lparr>keyspace := DEL key (keyspace s1)\<rparr>))"

section \<open>Decimal text of integers\<close>

text \<open>
  \<open>strconv.Itoa\<close> / \<open>FormatInt(_, 10)\<close>, and \<open>strconv.ParseInt(_, 10, 64)\<close>, which
  \<open>strconv.Atoi\<close> agrees with on a 64-bit platform: an optional sign, then one or more
  decimal digits, and a value in the range of \<open>int64\<close>.
\<close>

definition digit_char :: "nat \<Rightarrow> char" where
  "digit_char d = ''0123456789'' ! d"

fun digits_of :: "nat \<Rightarrow> string" where
  "digits_of n = (if n < 10 then [digit_char n] else digits_of (n div 10) @ [digit_char (n mod 10)])"

declare digits_of.simps [simp del]

definition Itoa :: "int \<Rightarrow> string" where
  "Itoa i = (if i < 0 then CHR ''-'' # digits_of (nat (- i)) else digits_of (nat i))"

definition digit_val :: "char \<Rightarrow> int option" where
  "digit_val c = map_of (zip ''0123456789'' [0, 1, 2, 3, 4, 5, 6, 7, 8, 9]) c"

fun digits_val :: "int \<Rightarrow> string \<Rightarrow> int option" where
  "digits_val acc [] = Some acc"
| "digits_val acc (c # cs) =
     (case digit_val c of None \<Rightarrow> None | Some d \<Rightarrow> digits_val (acc * 10 + d) cs)"

definition ParseInt :: "string \<Rightarrow> int option" where
  "ParseInt str =
     (case str of
        [] \<Rightarrow> None
      | c # cs \<Rightarrow>
          (let neg = (c = CHR ''-'');
               ds = (if c = CHR ''+'' \<or> c = CHR ''-'' then cs else str)
           in if ds = [] then None
              else (case digits_val 0 ds of
                      None \<Rightarrow> None
                    | Some n \<Rightarrow>
                        (let v = (if neg then - n else n)
                         in if - 9223372036854775808 \<le> v \<and> v < 9223372036854775808
                            then Some v else None))))"

section \<open>Fractional numbers and their text\<close>

text \<open>
  The bucket level is a \<open>float64\<close> in Go and a Lua number in the script. Both are modelled
  by exact rationals: the rounding of IEEE-754 arithmetic is not represented, and neither
  are infinities and NaN, so the model of the bucket is meant for a window of at least one
  millisecond (the division by the window length is then a division by a non-zero number).

  The conversions between numbers and text belong to the Go library, to Lua and to the
  store. They are parameters of the model: \<open>ParseFloat\<close> is \<open>strconv.ParseFloat(_, 64)\<close>,
  \<open>tonumber\<close> is Lua's conversion of a string, and \<open>numstr\<close> is the text the store receives
  for a Lua number passed to a command.
\<close>

record numlib =
  ParseFloat :: "string \<Rightarrow> rat option"
  tonumber :: "string \<Rightarrow> rat option"
  numstr :: "rat \<Rightarrow> string"

text \<open>
  Go's conversion \<open>int(x)\<close> of a \<open>float64\<close> truncates toward zero. For a value outside the
  range of \<open>int\<close> the result is implementation-specific; the value produced on amd64 is
  taken.
\<close>

definition float_to_int :: "rat \<Rightarrow> int" where
  "float_to_int x =
     (let n = (if 0 \<le> x then \<lfloor>x\<rfloor> else \<lceil>x\<rceil>)
      in if - 9223372036854775808 \<le> n \<and> n < 9223372036854775808 then n
         else - 9223372036854775808)"

text \<open>
  A plain decimal reading and printing of numbers (sign, digits, optional fraction), used
  where a concrete instance of the conversions is needed.
\<close>

definition decimal_parse :: "string \<Rightarrow> rat option" where
  "decimal_parse str =
     (let neg = (str \<noteq> [] \<and> hd str = CHR ''-'');
          body = (if neg then tl str else str);
          ip = takeWhile (\<lambda>c. c \<noteq> CHR ''.'') body;
          fp = drop (length ip + 1) body
      in if ip = [] \<or> (fp = [] \<and> length ip < length body) then None
         else (case (digits_val 0 ip, digits_val 0 fp) of
                 (Some i, Some f) \<Rightarrow>
                   (let v = of_int i + of_int f / of_int (10 ^ length fp)
                    in Some (if neg then - v else v))
               | _ \<Rightarrow> None))"

fun frac_digits :: "nat \<Rightarrow> rat \<Rightarrow> string" where
  "frac_digits 0 f = []"
| "frac_digits (Suc n) f =
     (if f = 0 then []
      else digit_char (nat \<lfloor>f * 10\<rfloor>) # frac_digits n (f * 10 - of_int \<lfloor>f * 10\<rfloor>))"

definition decimal_print :: "rat \<Rightarrow> string" where
  "decimal_print q =
     (let a = \<bar>q\<bar>; i = \<lfloor>a\<rfloor>; f = a - of_int i
      in (if q < 0 then ''-'' else []) @ digits_of (nat i) @
         (if f = 0 then [] else CHR ''.'' # frac_digits 17 f))"

definition decimalLib :: numlib where
  "decimalLib = \<lparr>ParseFloat = decimal_parse, tonumber = decimal_parse, numstr = decimal_print\<rparr>"

section \<open>More commands of the store\<close>

text \<open>\<open>HMGET key f1 f2\<close>: a missing key or field reads as nil.\<close>

definition HMGET2 ::
  "int \<Rightarrow> string \<Rightarrow> string \<Rightarrow> string \<Rightarrow> keyspace \<Rightarrow>
     redis_error + ((string option \<times> string option) \<times> keyspace)" where
  "HMGET2 t k f1 f2 ks0 =
     (let ks = expireIfNeeded t k ks0 in
      case ks k of
        None \<Rightarrow> Inr ((None, None), ks)
      | Some (RHash h, e) \<Rightarrow> Inr ((h f1, h f2), ks)
      | Some (_, _) \<Rightarrow> Inl WrongType)"

text \<open>\<open>HSET\<close> / \<open>HMSET\<close> of a list of field-value pairs, in order.\<close>

definition HSET ::
  "int \<Rightarrow> string \<Rightarrow> (string \<times> string) list \<Rightarrow> keyspace \<Rightarrow> redis_error + keyspace" where
  "HSET t k fvs ks0 =
     (let ks = expireIfNeeded t k ks0 in
      case ks k of
        None \<Rightarrow> Inr (ks(k \<mapsto> (RHash (fold (\<lambda>(f, v) h. h(f \<mapsto> v)) fvs Map.empty), None)))
      | Some (RHash h, e) \<Rightarrow> Inr (ks(k \<mapsto> (RHash (fold (\<lambda>(f, v) h. h(f \<mapsto> v)) fvs h), e)))
      | Some (_, _) \<Rightarrow> Inl WrongType)"

definition GET :: "int \<Rightarrow> string \<Rightarrow> keyspace \<Rightarrow> (redis_error + string) \<times> keyspace" where
  "GET t k ks0 =
     (let ks = expireIfNeeded t k ks0 in
      case ks k of
        None \<Rightarrow> (Inl RedisNil, ks)
      | Some (RString v, e) \<Rightarrow> (Inr v, ks)
      | Some (_, _) \<Rightarrow> (Inl WrongType, ks))"

text \<open>
  \<open>client.Set(ctx, key, value, d)\<close> as the client sends it: for a positive expiration \<open>d\<close>
  the key expires after \<open>d\<close>, given in whole seconds (\<open>EX\<close>) when \<open>d\<close> is a whole number
  of seconds and in milliseconds (\<open>PX\<close>) otherwise; \<open>d = -1\<close> keeps the expiry that the key
  has (\<open>KEEPTTL\<close>); any other \<open>d\<close> stores the value with no expiry. The old value is
  replaced whatever its type.
\<close>

definition setExpiry :: "int \<Rightarrow> duration \<Rightarrow> int option \<Rightarrow> int option" where
  "setExpiry t d old =
     (if 0 < d then
        (if d < Second \<or> d mod Second \<noteq> 0
         then Some (t + (if d < 1000000 then 1 else d div 1000000))
         else Some (t + (d div Second) * 1000))
      else if d = - 1 then old
      else None)"

definition SET :: "int \<Rightarrow> string \<Rightarrow> string \<Rightarrow> duration \<Rightarrow> keyspace \<Rightarrow> keyspace" where
  "SET t k v d ks0 =
     (let ks = expireIfNeeded t k ks0
      in ks(k \<mapsto> (RString v,
                  setExpiry t d (case ks k of None \<Rightarrow> None | Some (old, e) \<Rightarrow> e))))"

section \<open>Leaky bucket limiter\<close>

definition lb_keyPrefix :: string where
  "lb_keyPrefix = ''rate_limit:leaky:''"

text \<open>
  The Lua script of \<open>LeakyBucket.Allow\<close>. The arguments are the decimal text of integers
  and are read back as those integers. Arithmetic on a value that \<open>tonumber\<close> could not
  convert raises, which ends the script with an error before anything is written.
\<close>

definition lb_script ::
  "numlib \<Rightarrow> int \<Rightarrow> string \<Rightarrow> int \<Rightarrow> int \<Rightarrow> int \<Rightarrow> keyspace \<Rightarrow>
     (redis_error + int) \<times> keyspace" where
  "lb_script L t key current_time limit window_size_ms ks0 =
     (let leak_rate = of_int limit / (of_int window_size_ms / 1000) in
      case HMGET2 t key ''level'' ''last_update'' ks0 of
        Inl e \<Rightarrow> (Inl e, ks0)
      | Inr ((b1, b2), ks) \<Rightarrow>
          (case (case b1 of
                   None \<Rightarrow> (Some 0, Some (of_int current_time))
                 | Some lv \<Rightarrow> (tonumber L lv, case b2 of None \<Rightarrow> None | Some lu \<Rightarrow> tonumber L lu)) of
             (Some level0, Some last_update) \<Rightarrow>
               (let elapsed = of_int current_time - last_update;
                    leaked = elapsed * leak_rate;
                    level = max 0 (level0 - leaked)
                in if level < of_int limit then
                     (case HSET t key [(''level'', numstr L (level + 1)),
                                       (''last_update'', numstr L (of_int current_time))] ks of
                        Inl e \<Rightarrow> (Inl e, ks)
                      | Inr ks1 \<Rightarrow> (Inr 1, EXPIRE t key (ttl_seconds window_size_ms) ks1))
                   else
                     (case HSET t key [(''last_update'', numstr L (of_int current_time))] ks of
                        Inl e \<Rightarrow> (Inl e, ks)
                      | Inr ks1 \<Rightarrow> (Inr 0, EXPIRE t key (ttl_seconds window_size_ms) ks1)))
           | _ \<Rightarrow> (Inl ScriptErr, ks)))"

definition LeakyBucket_Allow ::
  "numlib \<Rightarrow> store \<Rightarrow> time \<Rightarrow> string \<Rightarrow> int \<Rightarrow> duration \<Rightarrow> (error + bool) \<times> store" where
  "LeakyBucket_Allow L s now userID limit windowSize =
     (let key = lb_keyPrefix @ userID;
          currentTime = UnixMilli now
      in case roundTrip (CmdEval key) s of
           (False, s1) \<Rightarrow> (Inl (Wrapped ''rate limit check failed'' (Redis ConnErr)), s1)
         | (True, s1) \<Rightarrow>
             (case lb_script L (UnixMilli now) key currentTime limit
                     (Milliseconds windowSize) (keyspace s1) of
                (Inl e, ks) \<Rightarrow>
                  (Inl (Wrapped ''rate limit check failed'' (Redis e)), s1\<lparr>keyspace := ks\<rparr>)
              | (Inr result, ks) \<Rightarrow> (Inr (result = 1), s1\<lparr>keyspace := ks\<rparr>)))"

text \<open>
  The arithmetic of \<open>LeakyBucket.GetRemaining\<close> once both stored fields are parsed: the
  elapsed time and the last subtraction are Go \<open>int\<close> operations.
\<close>

definition lb_remaining :: "int \<Rightarrow> duration \<Rightarrow> int \<Rightarrow> rat \<Rightarrow> int \<Rightarrow> int" where
  "lb_remaining limit windowSize currentTime level lastUpdate =
     (let elapsed = wrap64 (currentTime - lastUpdate);
          leakRate = of_int limit / (of_int (Milliseconds windowSize) / 1000);
          leaked = of_int elapsed * leakRate;
          currentLevel = (if level - leaked < 0 then 0 else level - leaked);
          remaining = wrap64 (limit - float_to_int currentLevel)
      in if remaining < 0 then 0 else remaining)"

definition LeakyBucket_GetRemaining ::
  "numlib \<Rightarrow> store \<Rightarrow> time \<Rightarrow> string \<Rightarrow> int \<Rightarrow> duration \<Rightarrow> (error + int) \<times> store" where
  "LeakyBucket_GetRemaining L s now userID limit windowSize =
     (let key = lb_keyPrefix @ userID;
          currentTime = UnixMilli now
      in case roundTrip (CmdHMGet key) s of
           (False, s1) \<Rightarrow> (Inl (Wrapped ''failed to get bucket state'' (Redis ConnErr)), s1)
         | (True, s1) \<Rightarrow>
             (case HMGET2 (UnixMilli now) key ''level'' ''last_update'' (keyspace s1) of
                Inl e \<Rightarrow> (Inl (Wrapped ''failed to get bucket state'' (Redis e)), s1)
              | Inr ((b0, b1), ks) \<Rightarrow>
                  (let s2 = s1\<lparr>keyspace := ks\<rparr> in
                   case (b0, b1) of
                     (Some lv, Some lu) \<Rightarrow>
                       (case ParseFloat L lv of
                          None \<Rightarrow> (Inr limit, s2)
                        | Some level \<Rightarrow>
                            (case ParseInt lu of
                               None \<Rightarrow> (Inr limit, s2)
                             | Some lastUpdate \<Rightarrow>
                                 (Inr (lb_remaining limit windowSize currentTime level
                                         lastUpdate), s2)))
                   | _ \<Rightarrow> (Inr limit, s2))))"

definition LeakyBucket_Reset :: "store \<Rightarrow> string \<Rightarrow> error option \<times> store" where
  "LeakyBucket_Reset s userID =
     (let key = lb_keyPrefix @ userID
      in case roundTrip (CmdDel key) s of
           (False, s1) \<Rightarrow> (Some (Redis ConnErr), s1)
         | (True, s1) \<Rightarrow> (None, s1\<lparr>keyspace := DEL key (keyspace s1)\<rparr>))"

section \<open>Rate limiter service\<close>

record RateLimitConfig =
  DefaultLimit :: int
  WindowSize :: int
  Algorithm :: string
  EnableLocalCache :: bool
  LocalCacheTTL :: int

text \<open>
  The service's own state is its configuration and the two maps of the local cache. The
  store it talks to is passed along separately, since other instances share it. A call
  reads the clock once: the instants of the several \<open>time.Now()\<close> inside one call are
  taken to be the same.
\<close>

record service =
  config :: RateLimitConfig
  userLimitsCache :: "string \<Rightarrow> int option"
  cacheExpiry :: "string \<Rightarrow> time option"

definition NewService :: "RateLimitConfig \<Rightarrow> service" where
  "NewService cfg = \<lparr>config = cfg, userLimitsCache = Map.empty, cacheExpiry = Map.empty\<rparr>"

definition configKey :: "string \<Rightarrow> string" where
  "configKey userID = ''rate_limit:config:'' @ userID"

definition parseInt :: "string \<Rightarrow> error + int" where
  "parseInt str =
     (if str = [] then Inl (Plain ''empty string'')
      else (case ParseInt str of
              None \<Rightarrow> Inl (Wrapped ''invalid integer'' (Plain ''strconv.Atoi''))
            | Some result \<Rightarrow> Inr result))"

definition cacheTTL :: "service \<Rightarrow> duration" where
  "cacheTTL sv = wrap64 (LocalCacheTTL (config sv) * Second)"

text \<open>
  The write of the local cache under the write lock: when the cache is enabled, the value
  and an expiry one cache TTL ahead are stored for the identity.
\<close>

definition cacheStored :: "service \<Rightarrow> time \<Rightarrow> string \<Rightarrow> int \<Rightarrow> service" where
  "cacheStored sv now userID limit =
     (if EnableLocalCache (config sv) then
        sv\<lparr>userLimitsCache := (userLimitsCache sv)(userID \<mapsto> limit),
           cacheExpiry := (cacheExpiry sv)(userID \<mapsto> now + cacheTTL sv)\<rparr>
      else sv)"

text \<open>
  The read of the local cache under the read lock: a value is taken from it only when the
  cache is enabled, the identity has an entry, and the entry's expiry is still ahead.
\<close>

definition cacheLookup :: "service \<Rightarrow> time \<Rightarrow> string \<Rightarrow> int option" where
  "cacheLookup sv now userID =
     (if EnableLocalCache (config sv) then
        (case userLimitsCache sv userID of
           None \<Rightarrow> None
         | Some limit \<Rightarrow>
             (case cacheExpiry sv userID of
                None \<Rightarrow> None
              | Some expiry \<Rightarrow> if now < expiry then Some limit else None))
      else None)"

text \<open>\<open>redisClient.Get(ctx, key).Result()\<close>: one round trip; a missing key is \<open>redis.Nil\<close>.\<close>

definition client_Get :: "store \<Rightarrow> time \<Rightarrow> string \<Rightarrow> (redis_error + string) \<times> store" where
  "client_Get s now key =
     (case roundTrip (CmdGet key) s of
        (False, s1) \<Rightarrow> (Inl ConnErr, s1)
      | (True, s1) \<Rightarrow>
          (case GET (UnixMilli now) key (keyspace s1) of
             (r, ks) \<Rightarrow> (r, s1\<lparr>keyspace := ks\<rparr>)))"

definition getUserLimit ::
  "service \<Rightarrow> store \<Rightarrow> time \<Rightarrow> string \<Rightarrow> (error + int) \<times> service \<times> store" where
  "getUserLimit sv s now userID =
     (case cacheLookup sv now userID of
        Some limit \<Rightarrow> (Inr limit, sv, s)
      | None \<Rightarrow>
          (case client_Get s now (configKey userID) of
             (Inl RedisNil, s1) \<Rightarrow> (Inr 0, sv, s1)
           | (Inl e, s1) \<Rightarrow> (Inl (Redis e), sv, s1)
           | (Inr val, s1) \<Rightarrow>
               (case parseInt val of
                  Inl e \<Rightarrow> (Inl (Wrapped ''invalid limit value'' e), sv, s1)
                | Inr limit \<Rightarrow>
                    (Inr limit, cacheStored sv now userID limit, s1))))"

text \<open>
  One pass of the periodic cleanup (\<open>cleanupCache\<close>, run every minute by a background task
  when the cache is enabled), at instant \<open>now\<close>: every identity whose expiry has passed
  loses its entry in both maps.
\<close>

definition cleanupCache :: "service \<Rightarrow> time \<Rightarrow> service" where
  "cleanupCache sv now =
     sv\<lparr>userLimitsCache :=
          (\<lambda>userID. case cacheExpiry sv userID of
                       Some expiry \<Rightarrow> if expiry < now then None else userLimitsCache sv userID
                     | None \<Rightarrow> userLimitsCache sv userID),
        cacheExpiry :=
          (\<lambda>userID. case cacheExpiry sv userID of
                       Some expiry \<Rightarrow> if expiry < now then None else Some expiry
                     | None \<Rightarrow> None)\<rparr>"

definition windowSize_of :: "service \<Rightarrow> duration" where
  "windowSize_of sv = wrap64 (WindowSize (config sv) * Second)"

text \<open>The limiter the configuration selects, as its three operations.\<close>

definition limiter_Allow ::
  "numlib \<Rightarrow> service \<Rightarrow> store \<Rightarrow> time \<Rightarrow> string \<Rightarrow> int \<Rightarrow> duration \<Rightarrow> (error + bool) \<times> store" where
  "limiter_Allow L sv =
     (if Algorithm (config sv) = ''sliding_window'' then SlidingWindow_Allow
      else LeakyBucket_Allow L)"

definition limiter_GetRemaining ::
  "numlib \<Rightarrow> service \<Rightarrow> store \<Rightarrow> time \<Rightarrow> string \<Rightarrow> int \<Rightarrow> duration \<Rightarrow> (error + int) \<times> store" where
  "limiter_GetRemaining L sv =
     (if Algorithm (config sv) = ''sliding_window'' then SlidingWindow_GetRemaining
      else LeakyBucket_GetRemaining L)"

definition limiter_Reset :: "service \<Rightarrow> store \<Rightarrow> string \<Rightarrow> error option \<times> store" where
  "limiter_Reset sv =
     (if Algorithm (config sv) = ''sliding_window'' then SlidingWindow_Reset
      else LeakyBucket_Reset)"

definition RateLimit ::
  "numlib \<Rightarrow> service \<Rightarrow> store \<Rightarrow> time \<Rightarrow> string \<Rightarrow> int \<Rightarrow> (error + bool) \<times> service \<times> store" where
  "RateLimit L sv s now userID limit =
     (case getUserLimit sv s now userID of
        (r, sv1, s1) \<Rightarrow>
          (let userLimit0 = (case r of Inl err \<Rightarrow> limit | Inr ul \<Rightarrow> ul);
               userLimit = (if userLimit0 = 0 then limit else userLimit0)
           in case limiter_Allow L sv s1 now userID userLimit (windowSize_of sv) of
                (Inl err, s2) \<Rightarrow> (Inl (Wrapped ''rate limit check failed'' err), sv1, s2)
              | (Inr allowed, s2) \<Rightarrow> (Inr allowed, sv1, s2)))"

definition GetRemaining ::
  "numlib \<Rightarrow> service \<Rightarrow> store \<Rightarrow> time \<Rightarrow> string \<Rightarrow> int \<Rightarrow> (error + int) \<times> service \<times> store" where
  "GetRemaining L sv s now userID limit =
     (case getUserLimit sv s now userID of
        (r, sv1, s1) \<Rightarrow>
          (let userLimit0 = (case r of Inl err \<Rightarrow> limit | Inr ul \<Rightarrow> ul);
               userLimit = (if userLimit0 = 0 then limit else userLimit0)
           in case limiter_GetRemaining L sv s1 now userID userLimit (windowSize_of sv) of
                (res, s2) \<Rightarrow> (res, sv1, s2)))"

definition SetUserLimit ::
  "service \<Rightarrow> store \<Rightarrow> time \<Rightarrow> string \<Rightarrow> int \<Rightarrow> error option \<times> service \<times> store" where
  "SetUserLimit sv s now userID limit =
     (case roundTrip (CmdSet (configKey userID)) s of
        (False, s1) \<Rightarrow> (Some (Wrapped ''failed to set user limit'' (Redis ConnErr)), sv, s1)
      | (True, s1) \<Rightarrow>
          (None, cacheStored sv now userID limit,
           s1\<lparr>keyspace := SET (UnixMilli now) (configKey userID) (Itoa limit) (cacheTTL sv)
                              (keyspace s1)\<rparr>))"

definition Reset :: "service \<Rightarrow> store \<Rightarrow> string \<Rightarrow> error option \<times> service \<times> store" where
  "Reset sv s userID = (case limiter_Reset sv s userID of (r, s1) \<Rightarrow> (r, sv, s1))"

section \<open>Runs of calls\<close>

text \<open>
  A single-threaded caller issuing \<open>Allow\<close> at the successive instants \<open>nows\<close>; the
  decisions are collected in call order.
\<close>

fun allow_seq ::
  "store \<Rightarrow> string \<Rightarrow> int \<Rightarrow> duration \<Rightarrow> time list \<Rightarrow> (error + bool) list \<times> store" where
  "allow_seq s userID limit windowSize [] = ([], s)"
| "allow_seq s userID limit windowSize (now # nows) =
     (case SlidingWindow_Allow s now userID limit windowSize of
        (r, s1) \<Rightarrow>
          (case allow_seq s1 userID limit windowSize nows of
             (rs, s2) \<Rightarrow> (r # rs, s2)))"

text \<open>A store that holds no key, with no failure scheduled.\<close>

definition store0 :: store where
  "store0 = \<lparr>keyspace = Map.empty, faults = [], trace = []\<rparr>"


section \<open>Observations used by the properties\<close>

text \<open>The range of Go's \<open>int\<close> on the 64-bit platforms the program is built for.\<close>

definition int64 :: "int \<Rightarrow> bool" where
  "int64 x \<longleftrightarrow> - 9223372036854775808 \<le> x \<and> x < 9223372036854775808"

text \<open>The next round trip to the store is not scheduled to fail.\<close>

definition nextOk :: "store \<Rightarrow> bool" where
  "nextOk s = (case faults s of [] \<Rightarrow> True | f # fs \<Rightarrow> \<not> f)"



text \<open>
  The decay formula of the leaky bucket: the level after the leak of the elapsed time, never
  below zero.
\<close>

definition decayed_level :: "int \<Rightarrow> int \<Rightarrow> int \<Rightarrow> rat \<Rightarrow> rat \<Rightarrow> rat" where
  "decayed_level limit window_size_ms current_time level last_update =
     max 0 (level - (of_int current_time - last_update) *
                      (of_int limit / (of_int window_size_ms / 1000)))"

text \<open>The fields of the bucket record of a key at server time \<open>t\<close>; none when it has no live hash.\<close>

definition live_hash :: "keyspace \<Rightarrow> int \<Rightarrow> string \<Rightarrow> string \<Rightarrow> string option" where
  "live_hash ks t key =
     (case expireIfNeeded t key ks key of
        Some (RHash h, e) \<Rightarrow> h
      | _ \<Rightarrow> Map.empty)"

text \<open>A store that holds one bucket record, with the given text in its two fields.\<close>

definition bucketStore :: "string \<Rightarrow> string \<Rightarrow> string \<Rightarrow> store" where
  "bucketStore userID lv lu =
     \<lparr>keyspace = Map.empty(lb_keyPrefix @ userID \<mapsto>
        (RHash (Map.empty(''level'' \<mapsto> lv, ''last_update'' \<mapsto> lu)), None)),
      faults = [], trace = []\<rparr>"

text \<open>
  The last step of \<open>RateLimit\<close> and of \<open>GetRemaining\<close>: the selected limiter is asked with
  the limit \<open>userLimit\<close> on the store \<open>s1\<close>, and its answer is returned with the service
  state \<open>sv1\<close>.
\<close>

definition decideWith ::
  "numlib \<Rightarrow> service \<Rightarrow> service \<Rightarrow> store \<Rightarrow> time \<Rightarrow> string \<Rightarrow> int \<Rightarrow>
     (error + bool) \<times> service \<times> store" where
  "decideWith L sv sv1 s1 now userID userLimit =
     (case limiter_Allow L sv s1 now userID userLimit (windowSize_of sv) of
        (Inl err, s2) \<Rightarrow> (Inl (Wrapped ''rate limit check failed'' err), sv1, s2)
      | (Inr allowed, s2) \<Rightarrow> (Inr allowed, sv1, s2))"

definition remainingWith ::
  "numlib \<Rightarrow> service \<Rightarrow> service \<Rightarrow> store \<Rightarrow> time \<Rightarrow> string \<Rightarrow> int \<Rightarrow>
     (error + int) \<times> service \<times> store" where
  "remainingWith L sv sv1 s1 now userID userLimit =
     (case limiter_GetRemaining L sv s1 now userID userLimit (windowSize_of sv) of
        (res, s2) \<Rightarrow> (res, sv1, s2))"

text \<open>
  The limit the service hands to the limiter: the resolved one, or the caller's fallback
  when the resolution failed or gave zero.
\<close>

definition effectiveLimit :: "service \<Rightarrow> store \<Rightarrow> time \<Rightarrow> string \<Rightarrow> int \<Rightarrow> int" where
  "effectiveLimit sv s now userID fallback =
     (case fst (getUserLimit sv s now userID) of
        Inl err \<Rightarrow> fallback
      | Inr ul \<Rightarrow> if ul = 0 then fallback else ul)"

text \<open>A run of limit resolutions for one identity at successive instants.\<close>

fun lookup_seq ::
  "service \<Rightarrow> store \<Rightarrow> string \<Rightarrow> time list \<Rightarrow> (error + int) list \<times> service \<times> store" where
  "lookup_seq sv s userID [] = ([], sv, s)"
| "lookup_seq sv s userID (now # nows) =
     (case getUserLimit sv s now userID of
        (r, sv1, s1) \<Rightarrow>
          (case lookup_seq sv1 s1 userID nows of
             (rs, sv2, s2) \<Rightarrow> (r # rs, sv2, s2)))"

text \<open>The counter key of an identity under the algorithm the configuration selects.\<close>

definition activeKey :: "service \<Rightarrow> string \<Rightarrow> string" where
  "activeKey sv userID =
     (if Algorithm (config sv) = ''sliding_window'' then sw_keyPrefix else lb_keyPrefix) @ userID"

text \<open>Concrete configurations and states used to instantiate the properties.\<close>

definition exampleConfig :: RateLimitConfig where
  "exampleConfig = \<lparr>DefaultLimit = 100, WindowSize = 1, Algorithm = ''sliding_window'',
     EnableLocalCache = True, LocalCacheTTL = 60\<rparr>"

definition overrideExample :: "error option \<times> service \<times> store" where
  "overrideExample = SetUserLimit (NewService exampleConfig) store0 0 ''alice'' 50"

definition zeroExample :: "error option \<times> service \<times> store" where
  "zeroExample = SetUserLimit (NewService exampleConfig) store0 0 ''alice'' 0"

definition busyStore :: store where
  "busyStore = snd (allow_seq store0 ''alice'' 2 Second [1000000000, 1010000000, 1020000000])"

section \<open>Properties of the sliding window limiter\<close>




lemma sw_script_empty:
  assumes "ks key = None"
  shows "sw_script t key ct ws limit wms ks =
     (if 0 < limit
      then (Inr 1, if ttl_seconds wms \<le> 0 then ks
                   else ks(key \<mapsto> (RZSet [(ct, ct)], Some (t + ttl_seconds wms * 1000))))
      else (Inr 0, ks))"
  using assms
  by (auto simp: sw_script_def ZREMRANGEBYSCORE_def ZCARD_def ZADD_def EXPIRE_def
      expireIfNeeded_def Let_def fun_eq_iff)

















text \<open>
  The distinct millisecond readings are needed: calls within one millisecond write the same
  member, so the sorted set does not grow and a third call passes a limit of two.
\<close>

lemma same_millisecond_collapses:
  "fst (allow_seq store0 ''alice'' 2 Second [1000000000, 1000000001, 1000000002]) =
     [Inr True, Inr True, Inr True]"
  by code_simp

section \<open>Properties of \<open>GetRemaining\<close> of the sliding window limiter\<close>

lemma wrap64_id: "int64 x \<Longrightarrow> wrap64 x = x"
  by (simp add: int64_def wrap64_def)

lemma roundTrip_nextOk:
  "nextOk s \<Longrightarrow> roundTrip c s =
     (True, s\<lparr>faults := tl (faults s), trace := trace s @ [c]\<rparr>)"
  by (cases "faults s") (simp_all add: roundTrip_def nextOk_def)

lemma expireIfNeeded_idem [simp]:
  "expireIfNeeded t k (expireIfNeeded t k ks) = expireIfNeeded t k ks"
  by (auto simp: expireIfNeeded_def split: option.splits)



lemma wrap64_range: "- 9223372036854775808 \<le> wrap64 x"
  unfolding wrap64_def
  using pos_mod_sign[of 18446744073709551616 "x + 9223372036854775808"] by linarith








section \<open>Properties of the leaky bucket limiter\<close>

lemma expireIfNeeded_other: "k' \<noteq> k \<Longrightarrow> expireIfNeeded t k ks k' = ks k'"
  by (auto simp: expireIfNeeded_def split: option.splits)

lemma expireIfNeeded_upd_None [simp]:
  "expireIfNeeded t k (ks(k \<mapsto> (v, None))) = ks(k \<mapsto> (v, None))"
  by (simp add: expireIfNeeded_def)

lemma expireIfNeeded_upd_Some:
  "expireIfNeeded t k (ks(k \<mapsto> (v, Some e))) =
     (if e < t then ks(k := None) else ks(k \<mapsto> (v, Some e)))"
  by (simp add: expireIfNeeded_def)

lemma expireIfNeeded_live:
  assumes "expireIfNeeded t k ks k = Some (v, e)"
  shows "expireIfNeeded t k (ks'(k \<mapsto> (v', e))) = ks'(k \<mapsto> (v', e))"
  using assms
  by (cases e) (auto simp: expireIfNeeded_def split: option.splits if_splits)

lemma lb_script_denied:
  assumes "lb_script L t key ct limit wms ks = (Inr 0, ks')" and "0 < ttl_seconds wms"
  shows "ks' = (expireIfNeeded t key ks)(key \<mapsto>
           (RHash ((live_hash ks t key)(''last_update'' \<mapsto> numstr L (of_int ct))),
            Some (t + ttl_seconds wms * 1000)))"
proof (cases "expireIfNeeded t key ks key")
  case None
  then show ?thesis
    using assms
    by (auto simp: lb_script_def HMGET2_def HSET_def EXPIRE_def live_hash_def Let_def
        split: option.splits if_splits prod.splits)
next
  case (Some p)
  obtain v e where p: "p = (v, e)" by (cases p)
  show ?thesis
  proof (cases v)
    case (RHash h)
    then show ?thesis
      using assms Some p expireIfNeeded_live[of t key ks v e]
      by (auto simp: lb_script_def HMGET2_def HSET_def EXPIRE_def live_hash_def Let_def
          split: option.splits if_splits prod.splits)
  qed (use assms Some p in \<open>auto simp: lb_script_def HMGET2_def Let_def\<close>)
qed


lemma lb_script_result:
  "lb_script L t key ct limit wms ks = (Inr r, ks') \<Longrightarrow> r = 0 \<or> r = 1"
  by (auto simp: lb_script_def Let_def split: sum.splits option.splits if_splits prod.splits)

lemma roundTrip_keyspace: "keyspace (snd (roundTrip c s)) = keyspace s"
  by (simp add: roundTrip_def split: list.splits)

lemma LeakyBucket_Allow_denied_keyspace:
  assumes den: "LeakyBucket_Allow L s now userID limit windowSize = (Inr False, s')"
    and w: "0 < Milliseconds windowSize"
  shows "keyspace s' = (expireIfNeeded (UnixMilli now) (lb_keyPrefix @ userID) (keyspace s))
     (lb_keyPrefix @ userID \<mapsto>
        (RHash ((live_hash (keyspace s) (UnixMilli now) (lb_keyPrefix @ userID))
                  (''last_update'' \<mapsto> numstr L (of_int (UnixMilli now)))),
         Some (UnixMilli now + ttl_seconds (Milliseconds windowSize) * 1000)))"
proof -
  let ?k = "lb_keyPrefix @ userID"
  let ?t = "UnixMilli now"
  obtain ok s1 where rt: "roundTrip (CmdEval ?k) s = (ok, s1)" by (cases "roundTrip (CmdEval ?k) s")
  have ks1: "keyspace s1 = keyspace s" using roundTrip_keyspace[of "CmdEval ?k" s] rt by simp
  obtain r ks where sc: "lb_script L ?t ?k ?t limit (Milliseconds windowSize) (keyspace s1) = (r, ks)"
    by (cases "lb_script L ?t ?k ?t limit (Milliseconds windowSize) (keyspace s1)")
  from den rt sc have ok and "\<exists>n. r = Inr n \<and> n \<noteq> 1" and s': "s' = s1\<lparr>keyspace := ks\<rparr>"
    by (auto simp: LeakyBucket_Allow_def Let_def split: bool.splits sum.splits)
  then obtain n where n: "r = Inr n" "n \<noteq> 1" by blast
  with sc lb_script_result[of L ?t ?k ?t limit "Milliseconds windowSize" "keyspace s1" n ks]
  have r0: "lb_script L ?t ?k ?t limit (Milliseconds windowSize) (keyspace s1) = (Inr 0, ks)"
    by auto
  have ttl: "0 < ttl_seconds (Milliseconds windowSize)"
    using w by (simp add: ttl_seconds_def)
  show ?thesis
    using lb_script_denied[OF r0 ttl] s' ks1 by simp
qed

lemma LeakyBucket_Allow_denied_when:
  assumes ok: "nextOk s"
    and live: "expireIfNeeded (UnixMilli now) (lb_keyPrefix @ userID) (keyspace s)
                 (lb_keyPrefix @ userID) = Some (RHash h, e)"
    and f1: "h ''level'' = Some lv" and f2: "h ''last_update'' = Some lu"
    and n1: "tonumber L lv = Some level" and n2: "tonumber L lu = Some last_update"
    and full: "of_int limit \<le> decayed_level limit (Milliseconds windowSize) (UnixMilli now)
                 level last_update"
  shows "fst (LeakyBucket_Allow L s now userID limit windowSize) = Inr False"
proof -
  have nl: "\<not> max 0 (level - (of_int (UnixMilli now) - last_update) *
      (of_int limit / (of_int (Milliseconds windowSize) / 1000))) < of_int limit"
    using full unfolding decayed_level_def by linarith
  have sc: "lb_script L (UnixMilli now) (lb_keyPrefix @ userID) (UnixMilli now) limit
      (Milliseconds windowSize) (keyspace s) =
      (Inr 0, EXPIRE (UnixMilli now) (lb_keyPrefix @ userID) (ttl_seconds (Milliseconds windowSize))
         ((expireIfNeeded (UnixMilli now) (lb_keyPrefix @ userID) (keyspace s))
            (lb_keyPrefix @ userID \<mapsto>
               (RHash (h(''last_update'' \<mapsto> numstr L (of_int (UnixMilli now)))), e))))"
    unfolding lb_script_def Let_def HMGET2_def HSET_def
    using live f1 f2 n1 n2 nl expireIfNeeded_live[OF live]
    by (simp del: max_less_iff_conj)
  show ?thesis
    by (simp add: LeakyBucket_Allow_def roundTrip_nextOk[OF ok] Let_def sc)
qed



lemma LeakyBucket_GetRemaining_malformed:
  assumes ok: "nextOk s"
    and live: "expireIfNeeded (UnixMilli now) (lb_keyPrefix @ userID) (keyspace s)
                 (lb_keyPrefix @ userID) = Some (RHash h, e)"
    and f1: "h ''level'' = Some lv" and f2: "h ''last_update'' = Some lu"
    and bad: "ParseFloat L lv = None \<or> ParseInt lu = None"
  shows "fst (LeakyBucket_GetRemaining L s now userID limit windowSize) = Inr limit"
  using live f1 f2 bad
  by (auto simp: LeakyBucket_GetRemaining_def roundTrip_nextOk[OF ok] Let_def HMGET2_def
      split: option.splits)


lemma live_hash_after:
  "live_hash (ks(k \<mapsto> (RHash h, Some (t + ttl)))) t k = (if 0 \<le> ttl then h else Map.empty)"
  by (auto simp: live_hash_def expireIfNeeded_def)




text \<open>
  Claim C7 (malformed bucket data). When both fields of the stored bucket are present and
  the level does not parse as a number, or the last update does not parse as an integer,
  \<open>GetRemaining\<close> returns the full limit and no error.
\<close>

theorem LeakyBucket_GetRemaining_malformed_default:
  assumes "nextOk s"
    and "expireIfNeeded (UnixMilli now) (lb_keyPrefix @ userID) (keyspace s)
           (lb_keyPrefix @ userID) = Some (RHash h, e)"
    and "h ''level'' = Some lv" and "h ''last_update'' = Some lu"
    and "ParseFloat L lv = None \<or> ParseInt lu = None"
  shows "fst (LeakyBucket_GetRemaining L s now userID limit windowSize) = Inr limit"
  using assms by (rule LeakyBucket_GetRemaining_malformed)

theorem LeakyBucket_GetRemaining_malformed_default_witness:
  "ParseFloat decimalLib ''abc'' = None \<and> ParseInt ''12:30'' = None \<and>
   fst (LeakyBucket_GetRemaining decimalLib (bucketStore ''bob'' ''abc'' ''1000'')
          1001000000 ''bob'' 20 Second) = Inr 20 \<and>
   fst (LeakyBucket_GetRemaining decimalLib (bucketStore ''bob'' ''2.75'' ''12:30'')
          1001000000 ''bob'' 20 Second) = Inr 20"
proof -
  let ?s = "bucketStore ''bob'' ''abc'' ''1000''"
  let ?h = "Map.empty(''level'' \<mapsto> ''abc'', ''last_update'' \<mapsto> ''1000'')"
  let ?s2 = "bucketStore ''bob'' ''2.75'' ''12:30''"
  let ?h2 = "Map.empty(''level'' \<mapsto> ''2.75'', ''last_update'' \<mapsto> ''12:30'')"
  have a1: "nextOk ?s" by (simp add: nextOk_def bucketStore_def)
  have a2: "expireIfNeeded (UnixMilli 1001000000) (lb_keyPrefix @ ''bob'') (keyspace ?s)
      (lb_keyPrefix @ ''bob'') = Some (RHash ?h, None)"
    by (simp add: bucketStore_def expireIfNeeded_def)
  have a3: "?h ''level'' = Some ''abc''" "?h ''last_update'' = Some ''1000''" by simp_all
  have a5: "ParseFloat decimalLib ''abc'' = None" by code_simp
  have b1: "nextOk ?s2" by (simp add: nextOk_def bucketStore_def)
  have b2: "expireIfNeeded (UnixMilli 1001000000) (lb_keyPrefix @ ''bob'') (keyspace ?s2)
      (lb_keyPrefix @ ''bob'') = Some (RHash ?h2, None)"
    by (simp add: bucketStore_def expireIfNeeded_def)
  have b3: "?h2 ''level'' = Some ''2.75''" "?h2 ''last_update'' = Some ''12:30''" by simp_all
  have b5: "ParseInt ''12:30'' = None" by code_simp
  show ?thesis
    using LeakyBucket_GetRemaining_malformed_default[OF a1 a2 a3 disjI1[OF a5], of 20 Second]
      LeakyBucket_GetRemaining_malformed_default[OF b1 b2 b3 disjI2[OF b5], of decimalLib 20 Second]
      a5 b5
    by simp
qed

text \<open>
  Claim C5 (frame of a denied leaky-bucket call). Whenever \<open>Allow\<close> returns denied, the
  bucket record afterwards is the record before with only \<open>last_update\<close> set to the text of
  the current time: the \<open>level\<close> field and every other field are as they were, the key's
  expiry is set, and no other key changes. A call is denied when the stored fields convert
  to numbers and the decayed level is at least the limit.
\<close>

theorem LeakyBucket_Allow_denied_frame:
  assumes "0 < Milliseconds windowSize"
  shows "(LeakyBucket_Allow L s now userID limit windowSize = (Inr False, s') \<longrightarrow>
      keyspace s' (lb_keyPrefix @ userID) =
        Some (RHash ((live_hash (keyspace s) (UnixMilli now) (lb_keyPrefix @ userID))
                       (''last_update'' \<mapsto> numstr L (of_int (UnixMilli now)))),
              Some (UnixMilli now + ttl_seconds (Milliseconds windowSize) * 1000)) \<and>
      live_hash (keyspace s') (UnixMilli now) (lb_keyPrefix @ userID) ''level'' =
        live_hash (keyspace s) (UnixMilli now) (lb_keyPrefix @ userID) ''level'' \<and>
      live_hash (keyspace s') (UnixMilli now) (lb_keyPrefix @ userID) ''last_update'' =
        Some (numstr L (of_int (UnixMilli now))) \<and>
      (\<forall>f. f \<noteq> ''last_update'' \<longrightarrow>
         live_hash (keyspace s') (UnixMilli now) (lb_keyPrefix @ userID) f =
         live_hash (keyspace s) (UnixMilli now) (lb_keyPrefix @ userID) f) \<and>
      (\<forall>k. k \<noteq> lb_keyPrefix @ userID \<longrightarrow> keyspace s' k = keyspace s k)) \<and>
     (nextOk s \<and>
      expireIfNeeded (UnixMilli now) (lb_keyPrefix @ userID) (keyspace s)
        (lb_keyPrefix @ userID) = Some (RHash h, e) \<and>
      h ''level'' = Some lv \<and> h ''last_update'' = Some lu \<and>
      tonumber L lv = Some level \<and> tonumber L lu = Some last_update \<and>
      of_int limit \<le> decayed_level limit (Milliseconds windowSize) (UnixMilli now)
                        level last_update \<longrightarrow>
      fst (LeakyBucket_Allow L s now userID limit windowSize) = Inr False)"
proof (intro conjI impI)
  assume den: "LeakyBucket_Allow L s now userID limit windowSize = (Inr False, s')"
  note ks = LeakyBucket_Allow_denied_keyspace[OF den assms]
  have ttl: "0 \<le> ttl_seconds (Milliseconds windowSize) * 1000"
    using assms by (simp add: ttl_seconds_def)
  show k: "keyspace s' (lb_keyPrefix @ userID) =
        Some (RHash ((live_hash (keyspace s) (UnixMilli now) (lb_keyPrefix @ userID))
                       (''last_update'' \<mapsto> numstr L (of_int (UnixMilli now)))),
              Some (UnixMilli now + ttl_seconds (Milliseconds windowSize) * 1000))"
    unfolding ks by simp
  have lh: "live_hash (keyspace s') (UnixMilli now) (lb_keyPrefix @ userID) =
      (live_hash (keyspace s) (UnixMilli now) (lb_keyPrefix @ userID))
        (''last_update'' \<mapsto> numstr L (of_int (UnixMilli now)))"
    unfolding ks using ttl by (simp add: live_hash_after)
  show "live_hash (keyspace s') (UnixMilli now) (lb_keyPrefix @ userID) ''level'' =
        live_hash (keyspace s) (UnixMilli now) (lb_keyPrefix @ userID) ''level''"
    unfolding lh by simp
  show "live_hash (keyspace s') (UnixMilli now) (lb_keyPrefix @ userID) ''last_update'' =
        Some (numstr L (of_int (UnixMilli now)))"
    unfolding lh by simp
  show "\<forall>f. f \<noteq> ''last_update'' \<longrightarrow>
         live_hash (keyspace s') (UnixMilli now) (lb_keyPrefix @ userID) f =
         live_hash (keyspace s) (UnixMilli now) (lb_keyPrefix @ userID) f"
    unfolding lh by simp
  show "\<forall>k. k \<noteq> lb_keyPrefix @ userID \<longrightarrow> keyspace s' k = keyspace s k"
    unfolding ks by (simp add: expireIfNeeded_other)
next
  assume "nextOk s \<and>
      expireIfNeeded (UnixMilli now) (lb_keyPrefix @ userID) (keyspace s)
        (lb_keyPrefix @ userID) = Some (RHash h, e) \<and>
      h ''level'' = Some lv \<and> h ''last_update'' = Some lu \<and>
      tonumber L lv = Some level \<and> tonumber L lu = Some last_update \<and>
      of_int limit \<le> decayed_level limit (Milliseconds windowSize) (UnixMilli now)
                        level last_update"
  then show "fst (LeakyBucket_Allow L s now userID limit windowSize) = Inr False"
    using LeakyBucket_Allow_denied_when[of s now userID h e lv lu L level last_update limit windowSize]
    by blast
qed


theorem LeakyBucket_Allow_denied_frame_witness:
  "fst (LeakyBucket_Allow decimalLib (bucketStore ''bob'' ''5000'' ''900'')
          1000000000 ''bob'' 10 Second) = Inr False \<and>
   live_hash (keyspace (snd (LeakyBucket_Allow decimalLib (bucketStore ''bob'' ''5000'' ''900'')
                               1000000000 ''bob'' 10 Second)))
     (UnixMilli 1000000000) (lb_keyPrefix @ ''bob'') ''level'' = Some ''5000'' \<and>
   live_hash (keyspace (snd (LeakyBucket_Allow decimalLib (bucketStore ''bob'' ''5000'' ''900'')
                               1000000000 ''bob'' 10 Second)))
     (UnixMilli 1000000000) (lb_keyPrefix @ ''bob'') ''last_update'' = Some ''1000''"
proof -
  let ?s = "bucketStore ''bob'' ''5000'' ''900''"
  let ?h = "Map.empty(''level'' \<mapsto> ''5000'', ''last_update'' \<mapsto> ''900'')"
  let ?r = "LeakyBucket_Allow decimalLib ?s 1000000000 ''bob'' 10 Second"
  have w: "0 < Milliseconds Second" by (simp add: Milliseconds_def Second_def)
  have h1: "nextOk ?s" by (simp add: nextOk_def bucketStore_def)
  have h2: "expireIfNeeded (UnixMilli 1000000000) (lb_keyPrefix @ ''bob'') (keyspace ?s)
      (lb_keyPrefix @ ''bob'') = Some (RHash ?h, None)"
    by (simp add: bucketStore_def expireIfNeeded_def)
  have h3: "?h ''level'' = Some ''5000''" "?h ''last_update'' = Some ''900''" by simp_all
  have h5: "tonumber decimalLib ''5000'' = Some 5000" "tonumber decimalLib ''900'' = Some 900"
    by code_simp+
  have h7: "of_int 10 \<le> decayed_level 10 (Milliseconds Second) (UnixMilli 1000000000) 5000 900"
    by (simp add: decayed_level_def Milliseconds_def Second_def UnixMilli_def)
  note inst = LeakyBucket_Allow_denied_frame[OF w, of decimalLib ?s 1000000000 "''bob''" 10
      "snd ?r" ?h None "''5000''" "''900''" 5000 900]
  have den: "fst ?r = Inr False"
    using inst h1 h2 h3 h5 h7 by blast
  then have eq: "?r = (Inr False, snd ?r)" by (simp add: prod_eq_iff)
  have lv: "live_hash (keyspace ?s) (UnixMilli 1000000000) (lb_keyPrefix @ ''bob'') ''level''
      = Some ''5000''"
    by (simp add: live_hash_def h2)
  have ns: "numstr decimalLib (of_int (UnixMilli 1000000000)) = ''1000''" by code_simp
  show ?thesis
    using inst eq den lv ns by metis
qed

section \<open>Properties of the rate limiter service\<close>

text \<open>
  The periodic cleanup only removes entries that a later read of the cache would ignore
  anyway, so it never changes what the cache gives.
\<close>

lemma cacheLookup_cleanupCache:
  assumes "t \<le> now"
  shows "cacheLookup (cleanupCache sv t) now userID = cacheLookup sv now userID"
  using assms
  by (auto simp: cacheLookup_def cleanupCache_def split: option.splits)

lemma RateLimit_effective:
  "RateLimit L sv s now userID fallback =
     decideWith L sv (fst (snd (getUserLimit sv s now userID)))
       (snd (snd (getUserLimit sv s now userID))) now userID
       (effectiveLimit sv s now userID fallback)"
  by (cases "getUserLimit sv s now userID")
     (auto simp: RateLimit_def decideWith_def effectiveLimit_def Let_def split: sum.splits)

lemma GetRemaining_effective:
  "GetRemaining L sv s now userID fallback =
     remainingWith L sv (fst (snd (getUserLimit sv s now userID)))
       (snd (snd (getUserLimit sv s now userID))) now userID
       (effectiveLimit sv s now userID fallback)"
  by (cases "getUserLimit sv s now userID")
     (auto simp: GetRemaining_def remainingWith_def effectiveLimit_def Let_def split: sum.splits)

lemma getUserLimit_hit:
  "cacheLookup sv now userID = Some c \<Longrightarrow> getUserLimit sv s now userID = (Inr c, sv, s)"
  by (simp add: getUserLimit_def)

lemma getUserLimit_store_error:
  "cacheLookup sv now userID = None \<Longrightarrow> client_Get s now (configKey userID) = (Inl e, s1) \<Longrightarrow>
   getUserLimit sv s now userID = (if e = RedisNil then Inr 0 else Inl (Redis e), sv, s1)"
  by (cases e) (simp_all add: getUserLimit_def)

lemma getUserLimit_store_value:
  "cacheLookup sv now userID = None \<Longrightarrow> client_Get s now (configKey userID) = (Inr v, s1) \<Longrightarrow>
   getUserLimit sv s now userID =
     (case parseInt v of
        Inl e \<Rightarrow> (Inl (Wrapped ''invalid limit value'' e), sv, s1)
      | Inr limit \<Rightarrow> (Inr limit, cacheStored sv now userID limit, s1))"
  by (simp add: getUserLimit_def cacheStored_def split: sum.splits)

lemma cacheLookup_Some_iff:
  "cacheLookup sv now userID = Some c \<longleftrightarrow>
     EnableLocalCache (config sv) \<and> userLimitsCache sv userID = Some c \<and>
     (\<exists>expiry. cacheExpiry sv userID = Some expiry \<and> now < expiry)"
  by (auto simp: cacheLookup_def split: option.splits if_splits)

lemma decideWith_error:
  "fst (decideWith L sv sv1 s1 now userID ul) = Inl x \<Longrightarrow>
   \<exists>err. fst (limiter_Allow L sv s1 now userID ul (windowSize_of sv)) = Inl err \<and>
         x = Wrapped ''rate limit check failed'' err"
  by (auto simp: decideWith_def split: prod.splits sum.splits)

text \<open>
  Claim C2 (effective-limit resolution). The local cache is consulted first and gives a
  value exactly when it is enabled and the identity's entry is present and unexpired; then
  no store lookup is made. Otherwise the store is asked once: a stored value is used (and
  cached), a missing key is not an error and leaves the caller's fallback limit in force,
  and any error of the lookup (communication, wrong type, unparsable value) also leaves the
  fallback in force. In every case \<open>RateLimit\<close> goes on to ask the limiter, and it can only
  fail with an error of the limiter itself. A resolved value of zero counts as no override.
\<close>

theorem RateLimit_limit_resolution:
  "(cacheLookup sv now userID = Some c \<longleftrightarrow>
      EnableLocalCache (config sv) \<and> userLimitsCache sv userID = Some c \<and>
      (\<exists>expiry. cacheExpiry sv userID = Some expiry \<and> now < expiry)) \<and>
   (cacheLookup sv now userID = Some c \<longrightarrow>
      RateLimit L sv s now userID fallback =
        decideWith L sv sv s now userID (if c = 0 then fallback else c)) \<and>
   (cacheLookup sv now userID = None \<and> client_Get s now (configKey userID) = (Inr v, s1) \<and>
    parseInt v = Inr n \<longrightarrow>
      RateLimit L sv s now userID fallback =
        decideWith L sv (cacheStored sv now userID n) s1 now userID
          (if n = 0 then fallback else n)) \<and>
   (cacheLookup sv now userID = None \<and> client_Get s now (configKey userID) = (Inl RedisNil, s1) \<longrightarrow>
      getUserLimit sv s now userID = (Inr 0, sv, s1) \<and>
      RateLimit L sv s now userID fallback = decideWith L sv sv s1 now userID fallback) \<and>
   (cacheLookup sv now userID = None \<and> client_Get s now (configKey userID) = (Inl e, s1) \<longrightarrow>
      RateLimit L sv s now userID fallback = decideWith L sv sv s1 now userID fallback) \<and>
   (cacheLookup sv now userID = None \<and> client_Get s now (configKey userID) = (Inr v, s1) \<and>
    parseInt v = Inl pe \<longrightarrow>
      RateLimit L sv s now userID fallback = decideWith L sv sv s1 now userID fallback) \<and>
   (\<forall>x. fst (RateLimit L sv s now userID fallback) = Inl x \<longrightarrow>
      (\<exists>ul s' err. fst (limiter_Allow L sv s' now userID ul (windowSize_of sv)) = Inl err \<and>
                     x = Wrapped ''rate limit check failed'' err))"
proof (intro conjI impI allI)
  show "cacheLookup sv now userID = Some c \<longleftrightarrow>
      EnableLocalCache (config sv) \<and> userLimitsCache sv userID = Some c \<and>
      (\<exists>expiry. cacheExpiry sv userID = Some expiry \<and> now < expiry)"
    by (rule cacheLookup_Some_iff)
next
  assume "cacheLookup sv now userID = Some c"
  then show "RateLimit L sv s now userID fallback =
        decideWith L sv sv s now userID (if c = 0 then fallback else c)"
    by (simp add: RateLimit_effective effectiveLimit_def getUserLimit_hit)
next
  assume "cacheLookup sv now userID = None \<and> client_Get s now (configKey userID) = (Inr v, s1) \<and>
    parseInt v = Inr n"
  then show "RateLimit L sv s now userID fallback =
        decideWith L sv (cacheStored sv now userID n) s1 now userID
          (if n = 0 then fallback else n)"
    by (simp add: RateLimit_effective effectiveLimit_def getUserLimit_store_value)
next
  assume a: "cacheLookup sv now userID = None \<and> client_Get s now (configKey userID) = (Inl RedisNil, s1)"
  then show "getUserLimit sv s now userID = (Inr 0, sv, s1)"
    by (simp add: getUserLimit_store_error)
  from a show "RateLimit L sv s now userID fallback = decideWith L sv sv s1 now userID fallback"
    by (simp add: RateLimit_effective effectiveLimit_def getUserLimit_store_error)
next
  assume "cacheLookup sv now userID = None \<and> client_Get s now (configKey userID) = (Inl e, s1)"
  then show "RateLimit L sv s now userID fallback = decideWith L sv sv s1 now userID fallback"
    by (simp add: RateLimit_effective effectiveLimit_def getUserLimit_store_error)
next
  assume "cacheLookup sv now userID = None \<and> client_Get s now (configKey userID) = (Inr v, s1) \<and>
    parseInt v = Inl pe"
  then show "RateLimit L sv s now userID fallback = decideWith L sv sv s1 now userID fallback"
    by (simp add: RateLimit_effective effectiveLimit_def getUserLimit_store_value)
next
  fix x assume "fst (RateLimit L sv s now userID fallback) = Inl x"
  then show "\<exists>ul s' err. fst (limiter_Allow L sv s' now userID ul (windowSize_of sv)) = Inl err \<and>
                     x = Wrapped ''rate limit check failed'' err"
    unfolding RateLimit_effective using decideWith_error by blast
qed


theorem RateLimit_limit_resolution_witness:
  "cacheLookup (NewService exampleConfig) 1000000000 ''alice'' = None \<and>
   fst (client_Get (store0\<lparr>faults := [True]\<rparr>) 1000000000 (configKey ''alice'')) = Inl ConnErr \<and>
   RateLimit decimalLib (NewService exampleConfig) (store0\<lparr>faults := [True]\<rparr>)
       1000000000 ''alice'' 100 =
     decideWith decimalLib (NewService exampleConfig) (NewService exampleConfig)
       (snd (client_Get (store0\<lparr>faults := [True]\<rparr>) 1000000000 (configKey ''alice'')))
       1000000000 ''alice'' 100 \<and>
   fst (RateLimit decimalLib (NewService exampleConfig) (store0\<lparr>faults := [True]\<rparr>)
          1000000000 ''alice'' 100) = Inr True"
proof -
  let ?sv = "NewService exampleConfig"
  let ?s = "store0\<lparr>faults := [True]\<rparr>"
  let ?g = "client_Get ?s 1000000000 (configKey ''alice'')"
  have h1: "cacheLookup ?sv 1000000000 ''alice'' = None"
    by (simp add: cacheLookup_def NewService_def)
  have h2: "fst ?g = Inl ConnErr"
    by (simp add: client_Get_def roundTrip_def store0_def)
  then have h3: "?g = (Inl ConnErr, snd ?g)" by (simp add: prod_eq_iff)
  have r: "RateLimit decimalLib ?sv ?s 1000000000 ''alice'' 100 =
      decideWith decimalLib ?sv ?sv (snd ?g) 1000000000 ''alice'' 100"
    using RateLimit_limit_resolution[of ?sv 1000000000 "''alice''" 0 decimalLib ?s 100
        "[]" "snd ?g" 0 ConnErr "Plain []"] h1 h3
    by blast
  have v: "fst (decideWith decimalLib ?sv ?sv (snd ?g) 1000000000 ''alice'' 100) = Inr True"
    by code_simp
  show ?thesis using h1 h2 r v by simp
qed

lemma SetUserLimit_success:
  assumes "SetUserLimit sv s t0 userID n = (None, sv1, s1)"
  shows "sv1 = cacheStored sv t0 userID n \<and>
     keyspace s1 = SET (UnixMilli t0) (configKey userID) (Itoa n) (cacheTTL sv) (keyspace s)"
  using assms
  by (auto simp: SetUserLimit_def cacheStored_def roundTrip_def
      split: prod.splits bool.splits list.splits if_splits)

lemma getUserLimit_miss_trace:
  assumes "cacheLookup sv now userID = None"
  shows "trace (snd (snd (getUserLimit sv s now userID))) = trace s @ [CmdGet (configKey userID)]"
  using assms
  by (auto simp: getUserLimit_def client_Get_def roundTrip_def GET_def Let_def
      split: prod.splits bool.splits list.splits sum.splits redis_error.splits option.splits)

lemma cacheTTL_cacheStored [simp]: "cacheTTL (cacheStored sv t0 userID n) = cacheTTL sv"
  by (simp add: cacheTTL_def cacheStored_def)

lemma cacheLookup_cacheStored:
  "EnableLocalCache (config sv) \<Longrightarrow>
   cacheLookup (cacheStored sv t0 userID n) now userID =
     (if now < t0 + cacheTTL sv then Some n else None)"
  by (simp add: cacheLookup_def cacheStored_def)

text \<open>
  Claim C4 (override enforcement round-trip). With the local cache enabled, after a
  successful \<open>SetUserLimit\<close> of a non-zero limit \<open>n\<close> at instant \<open>t0\<close>, every
  \<open>RateLimit\<close> at an instant before \<open>t0\<close> plus the cache TTL decides against \<open>n\<close>, whatever
  fallback the caller passes, and asks the store nothing for the resolution; from that
  instant on, with no refresh of the entry, the next resolution sends a lookup to the store.
\<close>

theorem SetUserLimit_override_enforced:
  assumes "EnableLocalCache (config sv)"
    and "SetUserLimit sv s t0 userID n = (None, sv1, s1)"
    and "n \<noteq> 0"
  shows "(now < t0 + cacheTTL sv \<longrightarrow>
            RateLimit L sv1 s' now userID fallback = decideWith L sv1 sv1 s' now userID n \<and>
            getUserLimit sv1 s' now userID = (Inr n, sv1, s')) \<and>
         (t0 + cacheTTL sv \<le> now \<longrightarrow>
            trace (snd (snd (getUserLimit sv1 s' now userID))) =
              trace s' @ [CmdGet (configKey userID)])"
proof -
  have sv1: "sv1 = cacheStored sv t0 userID n"
    using SetUserLimit_success[OF assms(2)] by simp
  note cl = cacheLookup_cacheStored[OF assms(1), of t0 userID n now]
  show ?thesis
  proof (intro conjI impI)
    assume a: "now < t0 + cacheTTL sv"
    then have hit: "cacheLookup sv1 now userID = Some n" using cl sv1 by simp
    show "RateLimit L sv1 s' now userID fallback = decideWith L sv1 sv1 s' now userID n"
      using assms(3) by (simp add: RateLimit_effective effectiveLimit_def getUserLimit_hit[OF hit])
    show "getUserLimit sv1 s' now userID = (Inr n, sv1, s')"
      by (rule getUserLimit_hit[OF hit])
  next
    assume "t0 + cacheTTL sv \<le> now"
    then have "cacheLookup sv1 now userID = None" using cl sv1 by simp
    then show "trace (snd (snd (getUserLimit sv1 s' now userID))) =
              trace s' @ [CmdGet (configKey userID)]"
      by (rule getUserLimit_miss_trace)
  qed
qed

theorem SetUserLimit_override_enforced_witness:
  "fst overrideExample = None \<and>
   RateLimit decimalLib (fst (snd overrideExample)) (snd (snd overrideExample))
       1000000000 ''alice'' 100 =
     decideWith decimalLib (fst (snd overrideExample)) (fst (snd overrideExample))
       (snd (snd overrideExample)) 1000000000 ''alice'' 50 \<and>
   trace (snd (snd (getUserLimit (fst (snd overrideExample)) (snd (snd overrideExample))
                      61000000000 ''alice''))) =
     trace (snd (snd overrideExample)) @ [CmdGet (configKey ''alice'')]"
proof -
  let ?sv = "NewService exampleConfig"
  have h1: "EnableLocalCache (config ?sv)" by (simp add: NewService_def exampleConfig_def)
  have n: "fst overrideExample = None"
    by (simp add: overrideExample_def SetUserLimit_def roundTrip_def store0_def)
  then have h2: "SetUserLimit ?sv store0 0 ''alice'' 50 =
      (None, fst (snd overrideExample), snd (snd overrideExample))"
    by (simp add: overrideExample_def prod_eq_iff)
  have h3: "(50::int) \<noteq> 0" by simp
  have ttl: "cacheTTL ?sv = 60000000000"
    by (simp add: cacheTTL_def NewService_def exampleConfig_def Second_def wrap64_def)
  have a: "(1000000000::int) < 0 + cacheTTL ?sv" unfolding ttl by simp
  have b: "0 + cacheTTL ?sv \<le> (61000000000::int)" unfolding ttl by simp
  show ?thesis
    using SetUserLimit_override_enforced[OF h1 h2 h3, where now = 1000000000 and L = decimalLib
        and s' = "snd (snd overrideExample)" and fallback = 100]
      SetUserLimit_override_enforced[OF h1 h2 h3, where now = 61000000000 and L = decimalLib
        and s' = "snd (snd overrideExample)" and fallback = 100] a b n
    by blast
qed

lemma Itoa_0: "Itoa 0 = ''0''"
  by (simp add: Itoa_def digits_of.simps digit_char_def)

lemma parseInt_0: "parseInt ''0'' = Inr 0"
  by (simp add: parseInt_def ParseInt_def digit_val_def Let_def)

lemma effectiveLimit_zero_override:
  assumes cache: "cacheLookup sv now userID = None \<or> cacheLookup sv now userID = Some 0"
    and rec: "keyspace s (configKey userID) = Some (RString ''0'', ex)"
  shows "effectiveLimit sv s now userID fallback = fallback"
  using cache
proof
  assume "cacheLookup sv now userID = Some 0"
  then show ?thesis by (simp add: effectiveLimit_def getUserLimit_hit)
next
  assume miss: "cacheLookup sv now userID = None"
  obtain r s1 where g: "client_Get s now (configKey userID) = (r, s1)"
    by (cases "client_Get s now (configKey userID)")
  have "r = Inr ''0'' \<or> (\<exists>e. r = Inl e)"
    using g rec
    by (auto simp: client_Get_def roundTrip_def GET_def Let_def expireIfNeeded_def
        split: prod.splits bool.splits list.splits option.splits if_splits)
  then show ?thesis
  proof
    assume "r = Inr ''0''"
    then show ?thesis
      using g miss by (simp add: effectiveLimit_def getUserLimit_store_value parseInt_0)
  next
    assume "\<exists>e. r = Inl e"
    then obtain e where "r = Inl e" by blast
    then show ?thesis
      using g miss by (simp add: effectiveLimit_def getUserLimit_store_error)
  qed
qed

text \<open>
  Claim C9 (zero-override conflation). Whenever the resolution yields zero, \<open>RateLimit\<close>
  and \<open>GetRemaining\<close> ask the limiter with the caller's fallback limit. In particular, after
  a successful \<open>SetUserLimit\<close> of zero, they use the fallback at every later instant and
  under every schedule of store failures: a zero limit is never enforced.
\<close>

theorem zero_override_uses_fallback:
  "(fst (getUserLimit sv s now userID) = Inr 0 \<longrightarrow>
      RateLimit L sv s now userID fallback =
        decideWith L sv (fst (snd (getUserLimit sv s now userID)))
          (snd (snd (getUserLimit sv s now userID))) now userID fallback \<and>
      GetRemaining L sv s now userID fallback =
        remainingWith L sv (fst (snd (getUserLimit sv s now userID)))
          (snd (snd (getUserLimit sv s now userID))) now userID fallback) \<and>
   (SetUserLimit sv s t0 userID 0 = (None, sv1, s1) \<longrightarrow>
      RateLimit L sv1 (s1\<lparr>faults := fs\<rparr>) now userID fallback =
        decideWith L sv1 (fst (snd (getUserLimit sv1 (s1\<lparr>faults := fs\<rparr>) now userID)))
          (snd (snd (getUserLimit sv1 (s1\<lparr>faults := fs\<rparr>) now userID))) now userID fallback \<and>
      GetRemaining L sv1 (s1\<lparr>faults := fs\<rparr>) now userID fallback =
        remainingWith L sv1 (fst (snd (getUserLimit sv1 (s1\<lparr>faults := fs\<rparr>) now userID)))
          (snd (snd (getUserLimit sv1 (s1\<lparr>faults := fs\<rparr>) now userID))) now userID fallback)"
proof (intro conjI impI)
  assume z: "fst (getUserLimit sv s now userID) = Inr 0"
  then have e: "effectiveLimit sv s now userID fallback = fallback"
    by (simp add: effectiveLimit_def)
  show "RateLimit L sv s now userID fallback =
        decideWith L sv (fst (snd (getUserLimit sv s now userID)))
          (snd (snd (getUserLimit sv s now userID))) now userID fallback"
    using RateLimit_effective[of L sv s now userID fallback] e by simp
  show "GetRemaining L sv s now userID fallback =
        remainingWith L sv (fst (snd (getUserLimit sv s now userID)))
          (snd (snd (getUserLimit sv s now userID))) now userID fallback"
    using GetRemaining_effective[of L sv s now userID fallback] e by simp
next
  assume set: "SetUserLimit sv s t0 userID 0 = (None, sv1, s1)"
  let ?s = "s1\<lparr>faults := fs\<rparr>"
  note ss = SetUserLimit_success[OF set]
  have cache: "cacheLookup sv1 now userID = None \<or> cacheLookup sv1 now userID = Some 0"
    using ss by (auto simp: cacheLookup_def cacheStored_def split: option.splits if_splits)
  have "\<exists>ex. keyspace ?s (configKey userID) = Some (RString ''0'', ex)"
    using ss by (simp add: SET_def Itoa_0 Let_def)
  then obtain ex where rec: "keyspace ?s (configKey userID) = Some (RString ''0'', ex)"
    by blast
  have e: "effectiveLimit sv1 ?s now userID fallback = fallback"
    by (rule effectiveLimit_zero_override[OF cache rec])
  show "RateLimit L sv1 ?s now userID fallback =
        decideWith L sv1 (fst (snd (getUserLimit sv1 ?s now userID)))
          (snd (snd (getUserLimit sv1 ?s now userID))) now userID fallback"
    using RateLimit_effective[of L sv1 ?s now userID fallback] e by simp
  show "GetRemaining L sv1 ?s now userID fallback =
        remainingWith L sv1 (fst (snd (getUserLimit sv1 ?s now userID)))
          (snd (snd (getUserLimit sv1 ?s now userID))) now userID fallback"
    using GetRemaining_effective[of L sv1 ?s now userID fallback] e by simp
qed

theorem zero_override_uses_fallback_witness:
  "fst zeroExample = None \<and>
   fst (getUserLimit (fst (snd zeroExample)) (snd (snd zeroExample)) 1000000000 ''alice'') = Inr 0 \<and>
   RateLimit decimalLib (fst (snd zeroExample)) (snd (snd zeroExample)) 1000000000 ''alice'' 100 =
     decideWith decimalLib (fst (snd zeroExample))
       (fst (snd (getUserLimit (fst (snd zeroExample)) (snd (snd zeroExample)) 1000000000 ''alice'')))
       (snd (snd (getUserLimit (fst (snd zeroExample)) (snd (snd zeroExample)) 1000000000 ''alice'')))
       1000000000 ''alice'' 100 \<and>
   RateLimit decimalLib (fst (snd zeroExample)) (snd (snd zeroExample)) 2000000000 ''alice'' 100 =
     decideWith decimalLib (fst (snd zeroExample))
       (fst (snd (getUserLimit (fst (snd zeroExample)) (snd (snd zeroExample)) 2000000000 ''alice'')))
       (snd (snd (getUserLimit (fst (snd zeroExample)) (snd (snd zeroExample)) 2000000000 ''alice'')))
       2000000000 ''alice'' 100 \<and>
   fst (RateLimit decimalLib (fst (snd zeroExample)) (snd (snd zeroExample))
          1000000000 ''alice'' 100) = Inr True"
proof -
  let ?sv1 = "fst (snd zeroExample)"
  let ?s1 = "snd (snd zeroExample)"
  have n: "fst zeroExample = None"
    by (simp add: zeroExample_def SetUserLimit_def roundTrip_def store0_def)
  have z: "fst (getUserLimit ?sv1 ?s1 1000000000 ''alice'') = Inr 0"
    by code_simp
  have r: "RateLimit decimalLib ?sv1 ?s1 1000000000 ''alice'' 100 =
     decideWith decimalLib ?sv1
       (fst (snd (getUserLimit ?sv1 ?s1 1000000000 ''alice'')))
       (snd (snd (getUserLimit ?sv1 ?s1 1000000000 ''alice''))) 1000000000 ''alice'' 100"
    using zero_override_uses_fallback[where sv = ?sv1 and s = ?s1 and now = 1000000000
        and userID = "''alice''" and L = decimalLib and fallback = 100] z
    by blast
  have set: "SetUserLimit (NewService exampleConfig) store0 0 ''alice'' 0 = (None, ?sv1, ?s1)"
    using n by (simp add: zeroExample_def prod_eq_iff)
  have fs: "?s1\<lparr>faults := []\<rparr> = ?s1"
    by (simp add: zeroExample_def SetUserLimit_def roundTrip_def store0_def)
  have r2: "RateLimit decimalLib ?sv1 ?s1 2000000000 ''alice'' 100 =
     decideWith decimalLib ?sv1
       (fst (snd (getUserLimit ?sv1 ?s1 2000000000 ''alice'')))
       (snd (snd (getUserLimit ?sv1 ?s1 2000000000 ''alice''))) 2000000000 ''alice'' 100"
    using zero_override_uses_fallback[of "NewService exampleConfig" store0 2000000000
        "''alice''" decimalLib 100 0 ?sv1 ?s1 "[]"] set
    unfolding fs by blast
  have v: "fst (RateLimit decimalLib ?sv1 ?s1 1000000000 ''alice'' 100) = Inr True"
    by code_simp
  show ?thesis using n z r r2 v by blast
qed

lemma getUserLimit_absent:
  assumes "cacheLookup sv now userID = None" "keyspace s (configKey userID) = None" "faults s = []"
  shows "getUserLimit sv s now userID =
     (Inr 0, sv, s\<lparr>trace := trace s @ [CmdGet (configKey userID)]\<rparr>)"
  using assms
  by (simp add: getUserLimit_def client_Get_def roundTrip_def GET_def Let_def expireIfNeeded_def)

lemma lookup_seq_absent:
  assumes "userLimitsCache sv userID = None" "keyspace s (configKey userID) = None" "faults s = []"
  shows "lookup_seq sv s userID nows =
     (replicate (length nows) (Inr 0), sv,
      s\<lparr>trace := trace s @ replicate (length nows) (CmdGet (configKey userID))\<rparr>)"
  using assms
proof (induction nows arbitrary: s)
  case Nil
  then show ?case by simp
next
  case (Cons now nows)
  have miss: "cacheLookup sv now userID = None"
    using Cons.prems(1) by (simp add: cacheLookup_def)
  let ?s1 = "s\<lparr>trace := trace s @ [CmdGet (configKey userID)]\<rparr>"
  have g: "getUserLimit sv s now userID = (Inr 0, sv, ?s1)"
    by (rule getUserLimit_absent[OF miss Cons.prems(2,3)])
  have ih: "lookup_seq sv ?s1 userID nows =
     (replicate (length nows) (Inr 0), sv,
      ?s1\<lparr>trace := trace ?s1 @ replicate (length nows) (CmdGet (configKey userID))\<rparr>)"
    using Cons.prems by (intro Cons.IH) simp_all
  show ?case
    by (simp add: g ih replicate_append_same[symmetric] del: replicate_append_same)
qed

text \<open>
  Claim C10 (absence is never cached). When the cache gives nothing and the store reports
  no value, \<open>getUserLimit\<close> returns zero and leaves the service state, and so both cache
  maps, unchanged, after one round trip. Hence for an identity with no cache entry and no
  override in the store, every resolution of a run sends a lookup to the store, also when
  the local cache is enabled.
\<close>

theorem absence_never_cached:
  "(cacheLookup sv now userID = None \<and> client_Get s now (configKey userID) = (Inl RedisNil, s1) \<longrightarrow>
      getUserLimit sv s now userID = (Inr 0, sv, s1) \<and>
      userLimitsCache (fst (snd (getUserLimit sv s now userID))) = userLimitsCache sv \<and>
      cacheExpiry (fst (snd (getUserLimit sv s now userID))) = cacheExpiry sv \<and>
      trace s1 = trace s @ [CmdGet (configKey userID)]) \<and>
   (userLimitsCache sv userID = None \<and> keyspace s (configKey userID) = None \<and> faults s = [] \<longrightarrow>
      lookup_seq sv s userID nows =
        (replicate (length nows) (Inr 0), sv,
         s\<lparr>trace := trace s @ replicate (length nows) (CmdGet (configKey userID))\<rparr>))"
proof (intro conjI impI)
  assume a: "cacheLookup sv now userID = None \<and> client_Get s now (configKey userID) = (Inl RedisNil, s1)"
  then show g: "getUserLimit sv s now userID = (Inr 0, sv, s1)"
    by (simp add: getUserLimit_store_error)
  show "userLimitsCache (fst (snd (getUserLimit sv s now userID))) = userLimitsCache sv"
    by (simp add: g)
  show "cacheExpiry (fst (snd (getUserLimit sv s now userID))) = cacheExpiry sv"
    by (simp add: g)
  show "trace s1 = trace s @ [CmdGet (configKey userID)]"
    using getUserLimit_miss_trace[of sv now userID s] a g by simp
next
  assume "userLimitsCache sv userID = None \<and> keyspace s (configKey userID) = None \<and> faults s = []"
  then show "lookup_seq sv s userID nows =
        (replicate (length nows) (Inr 0), sv,
         s\<lparr>trace := trace s @ replicate (length nows) (CmdGet (configKey userID))\<rparr>)"
    using lookup_seq_absent by blast
qed

theorem absence_never_cached_witness:
  "cacheLookup (NewService exampleConfig) 1000000000 ''alice'' = None \<and>
   fst (client_Get store0 1000000000 (configKey ''alice'')) = Inl RedisNil \<and>
   getUserLimit (NewService exampleConfig) store0 1000000000 ''alice'' =
     (Inr 0, NewService exampleConfig, snd (client_Get store0 1000000000 (configKey ''alice''))) \<and>
   lookup_seq (NewService exampleConfig) store0 ''alice'' [1000000000, 2000000000, 3000000000] =
     ([Inr 0, Inr 0, Inr 0], NewService exampleConfig,
      store0\<lparr>trace := trace store0 @ [CmdGet (configKey ''alice''), CmdGet (configKey ''alice''),
                                       CmdGet (configKey ''alice'')]\<rparr>)"
proof -
  let ?sv = "NewService exampleConfig"
  let ?g = "client_Get store0 1000000000 (configKey ''alice'')"
  let ?nows = "[1000000000, 2000000000, 3000000000] :: time list"
  have h1: "cacheLookup ?sv 1000000000 ''alice'' = None"
    by (simp add: cacheLookup_def NewService_def)
  have h2: "fst ?g = Inl RedisNil"
    by (simp add: client_Get_def roundTrip_def store0_def GET_def expireIfNeeded_def)
  then have h3: "?g = (Inl RedisNil, snd ?g)" by (simp add: prod_eq_iff)
  have h4: "userLimitsCache ?sv ''alice'' = None \<and> keyspace store0 (configKey ''alice'') = None \<and>
      faults store0 = []"
    by (simp add: NewService_def store0_def)
  have r: "replicate (length ?nows) (Inr 0) = ([Inr 0, Inr 0, Inr 0] :: (error + int) list)"
    "replicate (length ?nows) (CmdGet (configKey ''alice'')) =
       [CmdGet (configKey ''alice''), CmdGet (configKey ''alice''), CmdGet (configKey ''alice'')]"
    by (simp_all add: numeral_3_eq_3)
  show ?thesis
    using absence_never_cached[of ?sv 1000000000 "''alice''" store0 "snd ?g" ?nows] h1 h2 h3 h4
    unfolding r by blast
qed

lemma roundTrip_no_faults:
  "faults s = [] \<Longrightarrow> roundTrip c s = (True, s\<lparr>trace := trace s @ [c]\<rparr>)"
  by (simp add: roundTrip_def)

lemma lb_script_absent:
  assumes "ks key = None"
  shows "fst (lb_script L t key ct limit wms ks) = Inr (if 0 < limit then 1 else 0)"
  using assms
  by (simp add: lb_script_def HMGET2_def HSET_def expireIfNeeded_def Let_def)

lemma limiter_Allow_absent:
  assumes "faults s = []" "keyspace s (activeKey sv userID) = None"
  shows "fst (limiter_Allow L sv s now userID limit windowSize) = Inr (0 < limit)"
proof (cases "Algorithm (config sv) = ''sliding_window''")
  case True
  then have k: "keyspace s (sw_keyPrefix @ userID) = None"
    using assms(2) by (simp add: activeKey_def)
  show ?thesis
    using True
    by (simp add: limiter_Allow_def SlidingWindow_Allow_def roundTrip_no_faults[OF assms(1)]
        Let_def sw_script_empty[of "keyspace s" "sw_keyPrefix @ userID", OF k])
next
  case False
  then have k: "keyspace s (lb_keyPrefix @ userID) = None"
    using assms(2) by (simp add: activeKey_def)
  obtain r ks where sc: "lb_script L (UnixMilli now) (lb_keyPrefix @ userID) (UnixMilli now) limit
      (Milliseconds windowSize) (keyspace s) = (r, ks)"
    by (cases "lb_script L (UnixMilli now) (lb_keyPrefix @ userID) (UnixMilli now) limit
      (Milliseconds windowSize) (keyspace s)")
  have r: "r = Inr (if 0 < limit then 1 else 0)"
    using lb_script_absent[of "keyspace s" "lb_keyPrefix @ userID", OF k, of L "UnixMilli now"
        "UnixMilli now" limit "Milliseconds windowSize"] sc by simp
  show ?thesis
    using False
    by (simp add: limiter_Allow_def LeakyBucket_Allow_def roundTrip_no_faults[OF assms(1)]
        Let_def sc r)
qed

lemma limiter_GetRemaining_absent:
  assumes "faults s = []" "keyspace s (activeKey sv userID) = None"
    and "0 \<le> limit" "limit < 9223372036854775808"
  shows "fst (limiter_GetRemaining L sv s now userID limit windowSize) = Inr limit"
proof (cases "Algorithm (config sv) = ''sliding_window''")
  case True
  then have k: "keyspace s (sw_keyPrefix @ userID) = None"
    using assms(2) by (simp add: activeKey_def)
  have w: "wrap64 limit = limit"
    using assms(3,4) by (intro wrap64_id) (simp add: int64_def)
  show ?thesis
    using True k assms(3)
    by (simp add: limiter_GetRemaining_def SlidingWindow_GetRemaining_def
        roundTrip_no_faults[OF assms(1)] Let_def ZREMRANGEBYSCORE_def ZCARD_def
        expireIfNeeded_def w)
next
  case False
  then have k: "keyspace s (lb_keyPrefix @ userID) = None"
    using assms(2) by (simp add: activeKey_def)
  show ?thesis
    using False k
    by (simp add: limiter_GetRemaining_def LeakyBucket_GetRemaining_def
        roundTrip_no_faults[OF assms(1)] Let_def HMGET2_def expireIfNeeded_def)
qed

lemma Reset_result:
  assumes "faults s = []"
  shows "Reset sv s userID =
     (None, sv, s\<lparr>trace := trace s @ [CmdDel (activeKey sv userID)],
                  keyspace := (keyspace s)(activeKey sv userID := None)\<rparr>)"
  by (simp add: Reset_def limiter_Reset_def SlidingWindow_Reset_def LeakyBucket_Reset_def
      roundTrip_no_faults[OF assms] Let_def activeKey_def DEL_def)

lemma configKey_not_active: "configKey u' \<noteq> activeKey sv userID"
  by (simp add: configKey_def activeKey_def sw_keyPrefix_def lb_keyPrefix_def)

text \<open>
  Claim C8 (scope and idempotence of \<open>Reset\<close>). With the store reachable, \<open>Reset\<close> returns
  no error, leaves the service state (and so the local cache) unchanged, and deletes only
  the counter key of the identity under the active algorithm: every other key, the
  override records among them, is as before, and when the identity had no counter the
  keyspace is unchanged. After it, the next \<open>Allow\<close> is admitted exactly when the limit is
  positive and \<open>GetRemaining\<close> reports the full limit, as for a new identity.
\<close>

theorem Reset_scope:
  assumes "faults s = []"
  shows "Reset sv s userID =
       (None, sv, s\<lparr>trace := trace s @ [CmdDel (activeKey sv userID)],
                    keyspace := (keyspace s)(activeKey sv userID := None)\<rparr>) \<and>
     keyspace (snd (snd (Reset sv s userID))) (configKey u') = keyspace s (configKey u') \<and>
     (\<forall>k. k \<noteq> activeKey sv userID \<longrightarrow>
        keyspace (snd (snd (Reset sv s userID))) k = keyspace s k) \<and>
     (keyspace s (activeKey sv userID) = None \<longrightarrow>
        keyspace (snd (snd (Reset sv s userID))) = keyspace s) \<and>
     fst (limiter_Allow L sv (snd (snd (Reset sv s userID))) now userID limit windowSize) =
       Inr (0 < limit) \<and>
     (0 \<le> limit \<and> limit < 9223372036854775808 \<longrightarrow>
        fst (limiter_GetRemaining L sv (snd (snd (Reset sv s userID))) now userID limit windowSize)
          = Inr limit)"
proof -
  note r = Reset_result[OF assms, of sv userID]
  let ?s' = "s\<lparr>trace := trace s @ [CmdDel (activeKey sv userID)],
                keyspace := (keyspace s)(activeKey sv userID := None)\<rparr>"
  have f: "faults ?s' = []" using assms by simp
  have k: "keyspace ?s' (activeKey sv userID) = None" by simp
  show ?thesis
    unfolding r
    using limiter_Allow_absent[OF f k, of L now limit windowSize]
      limiter_GetRemaining_absent[OF f k, of limit L now windowSize]
      configKey_not_active[of u' sv userID]
    by (auto simp: fun_eq_iff)
qed

theorem Reset_scope_witness:
  "faults busyStore = [] \<and>
   fst (limiter_Allow decimalLib (NewService exampleConfig) busyStore
          1030000000 ''alice'' 2 Second) = Inr False \<and>
   fst (Reset (NewService exampleConfig) busyStore ''alice'') = None \<and>
   fst (limiter_Allow decimalLib (NewService exampleConfig)
          (snd (snd (Reset (NewService exampleConfig) busyStore ''alice'')))
          1030000000 ''alice'' 2 Second) = Inr True \<and>
   fst (limiter_GetRemaining decimalLib (NewService exampleConfig)
          (snd (snd (Reset (NewService exampleConfig) busyStore ''alice'')))
          1030000000 ''alice'' 2 Second) = Inr 2"
proof -
  have f: "faults busyStore = []" by code_simp
  have d: "fst (limiter_Allow decimalLib (NewService exampleConfig) busyStore
          1030000000 ''alice'' 2 Second) = Inr False" by code_simp
  note inst = Reset_scope[OF f, where sv = "NewService exampleConfig" and userID = "''alice''"
      and u' = "''alice''" and L = decimalLib and now = 1030000000 and limit = 2
      and windowSize = Second]
  have r: "fst (Reset (NewService exampleConfig) busyStore ''alice'') = None"
    using conjunct1[OF inst] by simp
  have b: "(0::int) \<le> 2 \<and> (2::int) < 9223372036854775808" by simp
  have a: "fst (limiter_Allow decimalLib (NewService exampleConfig)
          (snd (snd (Reset (NewService exampleConfig) busyStore ''alice'')))
          1030000000 ''alice'' 2 Second) = Inr ((0::int) < 2)"
    using inst by blast
  have g: "fst (limiter_GetRemaining decimalLib (NewService exampleConfig)
          (snd (snd (Reset (NewService exampleConfig) busyStore ''alice'')))
          1030000000 ''alice'' 2 Second) = Inr 2"
    using inst b by blast
  show ?thesis
    using f d r a g by simp
qed

end
